theory Spec2Isabelle
  imports Main
begin

section \<open>Outcomes of a Go call\<close>

text \<open>
  A Go function either returns its results or panics.  A returned pair \<open>(value, error)\<close>
  whose every \<open>return\<close> statement is \<open>return nil, err\<close> or \<open>return v, nil\<close> is modelled
  as a sum: \<open>Inl msg\<close> is the error whose \<open>Error()\<close> text is \<open>msg\<close>, \<open>Inr v\<close> the value.
  \<open>ParseFile\<close>, whose pair is itself the subject of a property, returns the pair as it is.
\<close>

datatype 'a outcome = Returns 'a | Panics string

abbreviation newline :: char where
  "newline \<equiv> CHR 0x0A"

abbreviation carriage_return :: char where
  "carriage_return \<equiv> CHR 0x0D"

section \<open>Library functions used by the parser\<close>

subsection \<open>strings.Index, strings.Contains, strings.Split\<close>

text \<open>
  \<open>strings.Index(s, substr)\<close> is the index of the first occurrence of \<open>substr\<close> in \<open>s\<close>,
  or \<open>-1\<close>; here \<open>None\<close> stands for \<open>-1\<close>.
\<close>

fun strings_Index :: "string \<Rightarrow> string \<Rightarrow> nat option" where
  "strings_Index [] substr = (if substr = [] then Some 0 else None)"
| "strings_Index (c # cs) substr =
     (if take (length substr) (c # cs) = substr then Some 0
      else map_option Suc (strings_Index cs substr))"



subsection \<open>bufio.Scanner with the default split function ScanLines\<close>

text \<open>
  \<open>bufio.NewScanner(r)\<close> over an in-memory reader.  Each \<open>Scan()\<close> delivers the next line
  without its terminator: the bytes up to the next newline, or the non-empty rest of the
  input when no newline is left, with one trailing carriage return dropped (\<open>dropCR\<close>).
  A line that does not fit the buffer of \<open>MaxScanTokenSize\<close> bytes together with its
  terminator stops the scan with \<open>ErrTooLong\<close>.  \<open>Scan text\<close> is the list of tokens that
  the successive calls of \<open>Scan()\<close> deliver, and what \<open>Err()\<close> returns afterwards.
\<close>

definition MaxScanTokenSize :: nat where
  "MaxScanTokenSize = 64 * 1024"

definition ErrTooLong :: string where
  "ErrTooLong = ''bufio.Scanner: token too long''"

definition dropCR :: "string \<Rightarrow> string" where
  "dropCR data =
     (if data \<noteq> [] \<and> last data = carriage_return then butlast data else data)"

function Scan :: "string \<Rightarrow> string list \<times> string option" where
  "Scan data =
     (if data = [] then ([], None)
      else
        let token = takeWhile (\<lambda>c. c \<noteq> newline) data;
            rest = drop (Suc (length token)) data
        in if MaxScanTokenSize \<le> length token then ([], Some ErrTooLong)
           else (case Scan rest of (tokens, err) \<Rightarrow> (dropCR token # tokens, err)))"
  by pat_completeness auto
termination
  by (relation "measure length") auto

declare Scan.simps [simp del]

subsection \<open>bytes.Buffer.ReadString, filepath.Split\<close>

text \<open>
  \<open>ReadString(delim)\<close> returns the bytes up to and including the first \<open>delim\<close> and leaves
  the rest in the buffer; without a \<open>delim\<close> it returns everything with the error
  \<open>io.EOF\<close>, whose text is \<open>EOF\<close>.  The result is (line, remaining buffer, error).
\<close>

definition ReadString :: "string \<Rightarrow> char \<Rightarrow> string \<times> string \<times> string option" where
  "ReadString buf delim =
     (let line = takeWhile (\<lambda>c. c \<noteq> delim) buf
      in if length line < length buf
         then (line @ [delim], drop (Suc (length line)) buf, None)
         else (buf, [], Some ''EOF''))"

text \<open>
  \<open>filepath.Split(path)\<close> with the separator \<open>/\<close>: the directory is everything up to and
  including the last separator, the file name what follows it.
\<close>

definition filepath_Split :: "string \<Rightarrow> string \<times> string" where
  "filepath_Split path =
     (let file = rev (takeWhile (\<lambda>c. c \<noteq> CHR ''/'') (rev path))
      in (take (length path - length file) path, file))"

section \<open>The environment: file system and decoding engine\<close>

text \<open>
  \<open>Join\<close> is \<open>filepath.Join\<close>, \<open>ReadFile\<close> is \<open>ioutil.ReadFile\<close> (\<open>Inl\<close> the text of its
  error, \<open>Inr\<close> the bytes of the file) and \<open>Unmarshal\<close> is \<open>yaml.Unmarshal\<close>, which fills
  the value it is given and returns its error, if any.
\<close>

text \<open>
  Of the struct \<open>APIDefinition\<close> the record lists the scalar fields at its head; the
  others are filled by the decoder alone, and no function of the parser reads them.
\<close>

record APIDefinition =
  RAMLVersion :: string
  Title :: string
  Version :: string
  BaseUri :: string

definition new_APIDefinition :: APIDefinition where
  "new_APIDefinition = \<lparr>RAMLVersion = [], Title = [], Version = [], BaseUri = []\<rparr>"

record env =
  Join :: "string \<Rightarrow> string \<Rightarrow> string"
  ReadFile :: "string \<Rightarrow> string + string"
  Unmarshal :: "string \<Rightarrow> APIDefinition \<Rightarrow> string option \<times> APIDefinition"

section \<open>parser.go\<close>

definition readFileContents :: "env \<Rightarrow> string \<Rightarrow> string \<Rightarrow> string + string" where
  "readFileContents e workingDirectory fileName =
     (let filePath = Join e workingDirectory fileName
      in if fileName = [] then Inl (''File name cannot be nil: '' @ filePath)
         else (case ReadFile e filePath of
                 Inl err \<Rightarrow>
                   Inl (''Could not read file '' @ filePath @ '' (Error: '' @ err @ '')'')
               | Inr fileContentsArray \<Rightarrow> Inr fileContentsArray))"

text \<open>
  The inner loop of \<open>preProcess\<close> over the lines of the included file.  Its state is the
  output buffer with the two loop variables \<open>firstLine\<close> and \<open>indentationString\<close>.
\<close>

fun writeIncluded :: "nat \<Rightarrow> bool \<Rightarrow> string \<Rightarrow> string list \<Rightarrow> string \<Rightarrow> string" where
  "writeIncluded idx firstLine indentationString [] preprocessedContents =
     preprocessedContents"
| "writeIncluded idx firstLine indentationString (internalLine # internalRest) preprocessedContents =
     writeIncluded idx False
       (if firstLine then replicate idx CHR '' '' else indentationString)
       internalRest
       (preprocessedContents @ indentationString @ internalLine @ [newline])"

text \<open>
  The body of the outer loop for one line of the host document.  The slice
  \<open>line[idx+includeLength:]\<close> panics when \<open>idx + includeLength\<close> exceeds the length of the
  line.  The error of the inner scanner is never read, so only its tokens matter.
\<close>

definition includeLength :: nat where
  "includeLength = length ''!include ''"

definition processLine ::
  "env \<Rightarrow> string \<Rightarrow> string \<Rightarrow> string \<Rightarrow> (string + string) outcome" where
  "processLine e workingDirectory preprocessedContents line =
     (case strings_Index line ''!include'' of
        Some idx \<Rightarrow>
          if length line < idx + includeLength
          then Panics ''runtime error: slice bounds out of range''
          else
            let includedFile = drop (idx + includeLength) line;
                written = preprocessedContents @ take idx line
            in (case readFileContents e workingDirectory includedFile of
                  Inl err \<Rightarrow>
                    Returns (Inl (''Error including file '' @ includedFile @ '':''
                                  @ [newline] @ ''    '' @ err))
                | Inr includedContents \<Rightarrow>
                    Returns (Inr (writeIncluded idx True []
                                    (fst (Scan includedContents)) written)))
      | None \<Rightarrow> Returns (Inr (preprocessedContents @ line @ [newline])))"

fun scanLoop ::
  "env \<Rightarrow> string \<Rightarrow> string list \<Rightarrow> string \<Rightarrow> (string + string) outcome" where
  "scanLoop e workingDirectory [] preprocessedContents = Returns (Inr preprocessedContents)"
| "scanLoop e workingDirectory (line # rest) preprocessedContents =
     (case processLine e workingDirectory preprocessedContents line of
        Returns (Inr written) \<Rightarrow> scanLoop e workingDirectory rest written
      | Returns (Inl err) \<Rightarrow> Returns (Inl err)
      | Panics p \<Rightarrow> Panics p)"

definition preProcess :: "env \<Rightarrow> string \<Rightarrow> string \<Rightarrow> (string + string) outcome" where
  "preProcess e originalContents workingDirectory =
     (case Scan originalContents of
        (lines, scannerErr) \<Rightarrow>
          (case scanLoop e workingDirectory lines [] of
             Returns (Inr preprocessedContents) \<Rightarrow>
               (case scannerErr of
                  Some err \<Rightarrow> Returns (Inl (''Error reading YAML file: '' @ err))
                | None \<Rightarrow> Returns (Inr preprocessedContents))
           | Returns (Inl err) \<Rightarrow> Returns (Inl err)
           | Panics p \<Rightarrow> Panics p))"

text \<open>
  \<open>ParseFile\<close>.  The call of \<open>pretty.Println\<close> writes the preprocessed text to the standard
  output and leaves the result alone.
\<close>

definition versionMarker :: string where
  "versionMarker = ''#%RAML 0.8''"

definition versionError :: string where
  "versionError =
     ''Input file is not a RAML 0.8 file. Make sure the file starts with #%RAML 0.8''"

definition ParseFile ::
  "env \<Rightarrow> string \<Rightarrow> (APIDefinition option \<times> string option) outcome" where
  "ParseFile e filePath =
     (case filepath_Split filePath of
        (workingDirectory, fileName) \<Rightarrow>
          (case readFileContents e workingDirectory fileName of
             Inl err \<Rightarrow> Returns (None, Some err)
           | Inr mainFileBytes \<Rightarrow>
               (case ReadString mainFileBytes newline of
                  (firstLine, mainFileBuffer, Some err) \<Rightarrow>
                    Returns (None, Some (''Problem reading RAML file (Error: '' @ err @ '')''))
                | (firstLine, mainFileBuffer, None) \<Rightarrow>
                    let ramlVersion = (if 10 \<le> length firstLine then take 10 firstLine else [])
                    in if ramlVersion \<noteq> versionMarker
                       then Returns (None, Some versionError)
                       else
                         (case preProcess e mainFileBuffer workingDirectory of
                            Panics p \<Rightarrow> Panics p
                          | Returns (Inl err) \<Rightarrow>
                              Returns (None,
                                Some (''Error preprocessing RAML file (Error: '' @ err @ '')''))
                          | Returns (Inr preprocessedContentsBytes) \<Rightarrow>
                              (case Unmarshal e preprocessedContentsBytes
                                      (new_APIDefinition\<lparr>RAMLVersion := ramlVersion\<rparr>) of
                                 (Some err, apiDefinition) \<Rightarrow>
                                   Returns (None,
                                     Some (''Problems parsing RAML:'' @ [newline] @ ''  '' @ err))
                               | (None, apiDefinition) \<Rightarrow>
                                   Returns (Some apiDefinition, None))))))"

section \<open>The error translation of the package\<close>






section \<open>The definition choice of types.go\<close>

text \<open>
  \<open>DefinitionParameters\<close> is \<open>map[string]string\<close>; a \<open>nil\<close> map is \<open>None\<close>.
\<close>

type_synonym DefinitionParameters = "string \<rightharpoonup> string"

record DefinitionChoice =
  Name :: string
  Parameters :: "DefinitionParameters option"

text \<open>
  The argument \<open>unmarshaler func(interface{}) error\<close> decodes the current node into the
  value it is given.  The method calls it on a \<open>*string\<close> and on a
  \<open>map[string]DefinitionParameters\<close>, so it is a pair of functions, each from the value
  before the call to the error and the value after it.  The decoded map is the list of
  its entries in the order in which \<open>range\<close> visits them.
\<close>

record unmarshaler =
  intoString :: "string \<Rightarrow> string option \<times> string"
  intoMap :: "(string \<times> DefinitionParameters) list
              \<Rightarrow> string option \<times> (string \<times> DefinitionParameters) list"

definition UnmarshalYAML :: "DefinitionChoice \<Rightarrow> unmarshaler \<Rightarrow> string option \<times> DefinitionChoice" where
  "UnmarshalYAML dc u =
     (case intoString u [] of
        (None, simpleDefinition) \<Rightarrow>
          (None, dc\<lparr>Name := simpleDefinition, Parameters := None\<rparr>)
      | (Some _, _) \<Rightarrow>
          (case intoMap u [] of
             (None, parameterizedDefinition) \<Rightarrow>
               (None,
                foldl (\<lambda>d (choice, params). d\<lparr>Name := choice, Parameters := Some params\<rparr>)
                  dc parameterizedDefinition)
           | (Some err, _) \<Rightarrow> (Some err, dc)))"

text \<open>
  The closures that the decoding engine passes for a scalar node and for a mapping node
  whose values are mappings of strings: a scalar decodes into a string and not into a
  map, a mapping into a map and not into a string.
\<close>

definition scalarNode :: "string \<Rightarrow> unmarshaler" where
  "scalarNode v =
     \<lparr>intoString = (\<lambda>s. (None, v)),
      intoMap = (\<lambda>m. (Some (''cannot unmarshal !!str into map''), m))\<rparr>"

definition mappingNode :: "(string \<times> DefinitionParameters) list \<Rightarrow> unmarshaler" where
  "mappingNode entries =
     \<lparr>intoString = (\<lambda>s. (Some (''cannot unmarshal !!map into string''), s)),
      intoMap = (\<lambda>m. (None, entries))\<rparr>"

section \<open>A sample environment\<close>

text \<open>
  A small file system and a decoder that stores the text it is given in the title, for
  evaluating the functions on concrete inputs.
\<close>

definition sampleFiles :: "string \<Rightarrow> string + string" where
  "sampleFiles path =
     (if path = ''a.txt'' then Inr (''x'' @ [newline] @ ''y: !include b.txt'' @ [newline] @ ''z'')
      else if path = ''plain.raml'' then Inr (''#%RAML 0.8'' @ [newline] @ ''t: v'' @ [newline])
      else if path = ''loose.raml'' then Inr (''#%RAML 0.8 x'' @ [newline])
      else if path = ''bare.raml'' then Inr ''#%RAML 0.8''
      else if path = ''dangling.raml'' then Inr (''#%RAML 0.8'' @ [newline] @ ''t: !include'')
      else if path = ''wrong.raml'' then Inr (''title: x'' @ [newline])
      else if path = ''missing.raml'' then Inr (''#%RAML 0.8'' @ [newline] @ ''t: !include no.txt'')
      else Inl ''no such file or directory'')"

definition sampleEnv :: env where
  "sampleEnv =
     \<lparr>Join = (\<lambda>dir name. dir @ name),
      ReadFile = sampleFiles,
      Unmarshal = (\<lambda>text api. (None, api\<lparr>Title := text\<rparr>))\<rparr>"

section \<open>Notions used in the statements\<close>

text \<open>
  A line that the scanner gives back as it is: no newline inside, shorter than the buffer,
  no carriage return at its end.  A table read with the key as the fallback.
\<close>

definition plainLine :: "string \<Rightarrow> bool" where
  "plainLine l =
     (newline \<notin> set l \<and> length l < MaxScanTokenSize \<and> (l = [] \<or> last l \<noteq> carriage_return))"


section \<open>Properties of the library functions and of the loops\<close>

lemma strings_Index_bound:
  "strings_Index s sub = Some idx \<Longrightarrow> idx + length sub \<le> length s"
proof (induction s arbitrary: idx)
  case Nil
  then show ?case by (simp split: if_splits)
next
  case (Cons c cs)
  show ?case
  proof (cases "take (length sub) (c # cs) = sub")
    case True
    have "length sub \<le> length (c # cs)"
      using arg_cong [OF True, of length] by simp
    with True Cons.prems show ?thesis by simp
  next
    case False
    with Cons.prems obtain j where "strings_Index cs sub = Some j" "idx = Suc j"
      by auto
    with Cons.IH show ?thesis by fastforce
  qed
qed

lemma strings_Index_take:
  "strings_Index s sub = Some idx \<Longrightarrow> take (length sub) (drop idx s) = sub"
proof (induction s arbitrary: idx)
  case Nil
  then show ?case by (simp split: if_splits)
next
  case (Cons c cs)
  show ?case
  proof (cases "take (length sub) (c # cs) = sub")
    case True
    with Cons.prems show ?thesis by simp
  next
    case False
    with Cons.prems obtain j where "strings_Index cs sub = Some j" "idx = Suc j"
      by auto
    with Cons.IH show ?thesis by fastforce
  qed
qed

lemma strings_Index_replicate:
  "strings_Index (replicate n CHR ''a'' @ [newline]) ''!include'' = None"
  by (induction n) simp_all

lemma takeWhile_line:
  assumes "newline \<notin> set l"
  shows "takeWhile (\<lambda>c. c \<noteq> newline) (l @ newline # rest) = l"
proof -
  have "\<forall>x\<in>set l. x \<noteq> newline"
    using assms by auto
  then show ?thesis by simp
qed

lemma Scan_Nil: "Scan [] = ([], None)"
  by (simp add: Scan.simps)

lemma Scan_line:
  assumes "newline \<notin> set l" "length l < MaxScanTokenSize"
  shows "Scan (l @ newline # rest) = (case Scan rest of (tokens, err) \<Rightarrow> (dropCR l # tokens, err))"
proof -
  have "\<forall>x\<in>set l. x \<noteq> newline"
    using assms(1) by auto
  then have tw: "takeWhile (\<lambda>c. c \<noteq> newline) (l @ newline # rest) = l"
    by simp
  show ?thesis
    using assms(2) by (subst Scan.simps) (simp add: tw Let_def)
qed

lemma Scan_last:
  assumes "newline \<notin> set l" "length l < MaxScanTokenSize" "l \<noteq> []"
  shows "Scan l = ([dropCR l], None)"
proof -
  have "\<forall>x\<in>set l. x \<noteq> newline"
    using assms(1) by auto
  then have tw: "takeWhile (\<lambda>c. c \<noteq> newline) l = l"
    by simp
  show ?thesis
    using assms(2,3) by (subst Scan.simps) (simp add: tw Let_def Scan_Nil)
qed

lemma Scan_long_line:
  "Scan (replicate MaxScanTokenSize CHR ''a'' @ [newline]) = ([], Some ErrTooLong)"
proof -
  have "newline \<notin> set (replicate MaxScanTokenSize CHR ''a'')"
    by simp
  then have tw: "takeWhile (\<lambda>c. c \<noteq> newline) (replicate MaxScanTokenSize CHR ''a'' @ [newline])
          = replicate MaxScanTokenSize CHR ''a''"
    by (rule takeWhile_line)
  show ?thesis
    by (subst Scan.simps) (simp add: Let_def tw)
qed

lemma dropCR_plainLine: "plainLine l \<Longrightarrow> dropCR l = l"
  by (auto simp: plainLine_def dropCR_def)

lemma Scan_terminated:
  "\<forall>l\<in>set ls. plainLine l \<Longrightarrow> Scan (concat (map (\<lambda>l. l @ [newline]) ls)) = (ls, None)"
proof (induction ls)
  case Nil
  show ?case by (simp add: Scan_Nil)
next
  case (Cons l ls)
  then have pl: "plainLine l"
    and IH: "Scan (concat (map (\<lambda>l. l @ [newline]) ls)) = (ls, None)"
    by simp_all
  from pl have "newline \<notin> set l" and "length l < MaxScanTokenSize"
    by (simp_all add: plainLine_def)
  then have "Scan (l @ newline # concat (map (\<lambda>l. l @ [newline]) ls)) =
      (case Scan (concat (map (\<lambda>l. l @ [newline]) ls)) of
         (tokens, err) \<Rightarrow> (dropCR l # tokens, err))"
    by (rule Scan_line)
  with IH pl show ?case
    by (simp add: dropCR_plainLine)
qed

lemma ReadString_no_delim:
  "delim \<notin> set buf \<Longrightarrow> ReadString buf delim = (buf, [], Some ''EOF'')"
proof -
  assume "delim \<notin> set buf"
  then have "\<forall>x\<in>set buf. x \<noteq> delim" by auto
  then have tw: "takeWhile (\<lambda>c. c \<noteq> delim) buf = buf" by simp
  show ?thesis by (simp add: ReadString_def tw)
qed

lemma ReadString_delim:
  assumes "delim \<in> set buf"
  shows "ReadString buf delim =
           (takeWhile (\<lambda>c. c \<noteq> delim) buf @ [delim],
            drop (Suc (length (takeWhile (\<lambda>c. c \<noteq> delim) buf))) buf, None)"
proof -
  have "length (takeWhile (\<lambda>c. c \<noteq> delim) buf) < length buf"
    using assms by (induction buf) auto
  then show ?thesis by (simp add: ReadString_def Let_def)
qed

lemma first_line_version:
  assumes "newline \<notin> set line"
  shows "((if 10 \<le> length (line @ [newline]) then take 10 (line @ [newline]) else [])
            = versionMarker)
         = (take 10 line = versionMarker)"
proof (cases "10 \<le> length line")
  case True
  then show ?thesis by simp
next
  case False
  have "take 10 line \<noteq> versionMarker"
  proof
    assume "take 10 line = versionMarker"
    from arg_cong [OF this, of length] False show False
      by (simp add: versionMarker_def)
  qed
  moreover have "take 10 (line @ [newline]) \<noteq> versionMarker"
  proof
    assume eq: "take 10 (line @ [newline]) = versionMarker"
    from False have "take 10 (line @ [newline]) = line @ [newline]"
      by simp
    with eq have "newline \<in> set versionMarker"
      by (metis in_set_conv_decomp)
    then show False by (simp add: versionMarker_def)
  qed
  moreover have "[] \<noteq> versionMarker"
    by (simp add: versionMarker_def)
  ultimately show ?thesis by simp
qed

lemma writeIncluded_rest:
  "writeIncluded idx False ind ls buf = buf @ concat (map (\<lambda>l. ind @ l @ [newline]) ls)"
  by (induction ls arbitrary: buf) simp_all

lemma writeIncluded_first:
  "writeIncluded idx True [] ls buf =
     buf @ (case ls of [] \<Rightarrow> []
            | l1 # rest \<Rightarrow> l1 @ [newline] @
                concat (map (\<lambda>l. replicate idx CHR '' '' @ l @ [newline]) rest))"
  by (cases ls) (simp_all add: writeIncluded_rest)



lemma processLine_plain:
  "strings_Index line ''!include'' = None \<Longrightarrow>
     processLine e wd buf line = Returns (Inr (buf @ line @ [newline]))"
  by (simp add: processLine_def)

lemma processLine_panic:
  "strings_Index line ''!include'' = Some idx \<Longrightarrow> length line < idx + includeLength \<Longrightarrow>
     processLine e wd buf line = Panics ''runtime error: slice bounds out of range''"
  by (simp add: processLine_def)



lemma scanLoop_append:
  "scanLoop e wd pre buf = Returns (Inr out) \<Longrightarrow>
     scanLoop e wd (pre @ post) buf = scanLoop e wd post out"
proof (induction pre arbitrary: buf)
  case Nil
  then show ?case by simp
next
  case (Cons l pre)
  then show ?case
    by (cases "processLine e wd buf l") (auto split: sum.splits)
qed

lemma scanLoop_plain:
  "\<forall>l\<in>set ls. strings_Index l ''!include'' = None \<Longrightarrow>
     scanLoop e wd ls buf = Returns (Inr (buf @ concat (map (\<lambda>l. l @ [newline]) ls)))"
  by (induction ls arbitrary: buf) (simp_all add: processLine_plain)

lemma readFileContents_Unmarshal [simp]:
  "readFileContents (e\<lparr>Unmarshal := u\<rparr>) wd name = readFileContents e wd name"
  by (simp add: readFileContents_def Let_def)

lemma processLine_Unmarshal [simp]:
  "processLine (e\<lparr>Unmarshal := u\<rparr>) wd buf line = processLine e wd buf line"
  by (simp add: processLine_def Let_def split: option.split)

lemma scanLoop_Unmarshal [simp]:
  "scanLoop (e\<lparr>Unmarshal := u\<rparr>) wd ls buf = scanLoop e wd ls buf"
  by (induction ls arbitrary: buf) (simp_all split: outcome.split sum.split)

lemma preProcess_Unmarshal [simp]:
  "preProcess (e\<lparr>Unmarshal := u\<rparr>) text wd = preProcess e text wd"
  by (simp add: preProcess_def)


section \<open>The inclusion preprocessor\<close>





text \<open>
  C9.  A host line whose first marker is not followed by a further byte, as the line
  \<open>!include\<close> itself: when the loop comes to it, the slice that extracts the path is out
  of range, and \<open>preProcess\<close> panics where it would otherwise report the file that cannot
  be included.
\<close>

theorem preProcess_panics_on_bare_marker:
  assumes "Scan text = (pre @ line # post, err)"
    and "scanLoop e wd pre [] = Returns (Inr out)"
    and "strings_Index line ''!include'' = Some idx"
    and "length line < idx + length ''!include ''"
  shows "preProcess e text wd = Panics ''runtime error: slice bounds out of range''"
proof -
  have "processLine e wd out line = Panics ''runtime error: slice bounds out of range''"
    using assms(3,4) by (simp add: processLine_panic includeLength_def)
  then have "scanLoop e wd (line # post) out = Panics ''runtime error: slice bounds out of range''"
    by simp
  with assms(2) have "scanLoop e wd (pre @ line # post) [] =
      Panics ''runtime error: slice bounds out of range''"
    by (simp add: scanLoop_append)
  with assms(1) show ?thesis
    by (simp add: preProcess_def)
qed

theorem preProcess_panics_on_bare_marker_witness:
  "Scan ''!include'' = ([] @ ''!include'' # [], None)
   \<and> scanLoop sampleEnv [] [] [] = Returns (Inr [])
   \<and> strings_Index ''!include'' ''!include'' = Some 0
   \<and> length ''!include'' < 0 + length ''!include ''
   \<and> preProcess sampleEnv ''!include'' [] = Panics ''runtime error: slice bounds out of range''"
proof -
  have h1: "Scan ''!include'' = ([] @ ''!include'' # [], None)"
    by (simp add: Scan.simps MaxScanTokenSize_def dropCR_def)
  have h2: "scanLoop sampleEnv [] [] [] = Returns (Inr [])"
    by simp
  have h3: "strings_Index ''!include'' ''!include'' = Some 0"
    by simp
  have h4: "length ''!include'' < 0 + length ''!include ''"
    by simp
  show ?thesis
    using h1 h2 h3 h4 preProcess_panics_on_bare_marker [OF h1 h2 h3 h4]
    by simp
qed



text \<open>
  C2, as amended.  On a document without the marker in which every line ends with a
  newline, no line ends with a carriage return, and every line is shorter than the
  buffer of the scanner, \<open>preProcess\<close> returns the document as it is.
\<close>

theorem preProcess_identity_on_plain_lines:
  assumes "\<forall>l\<in>set ls. plainLine l \<and> strings_Index l ''!include'' = None"
  shows "preProcess e (concat (map (\<lambda>l. l @ [newline]) ls)) wd =
           Returns (Inr (concat (map (\<lambda>l. l @ [newline]) ls)))"
proof -
  have "Scan (concat (map (\<lambda>l. l @ [newline]) ls)) = (ls, None)"
    using assms by (simp add: Scan_terminated)
  moreover have "scanLoop e wd ls [] = Returns (Inr ([] @ concat (map (\<lambda>l. l @ [newline]) ls)))"
    using assms by (intro scanLoop_plain) simp
  ultimately show ?thesis
    by (simp add: preProcess_def)
qed

theorem preProcess_identity_on_plain_lines_witness:
  "plainLine ''a: b'' \<and> strings_Index ''a: b'' ''!include'' = None
   \<and> plainLine [] \<and> strings_Index [] ''!include'' = None
   \<and> plainLine ''c'' \<and> strings_Index ''c'' ''!include'' = None
   \<and> preProcess sampleEnv (concat (map (\<lambda>l. l @ [newline]) [''a: b'', [], ''c''])) [] =
       Returns (Inr (''a: b'' @ [newline] @ [newline] @ ''c'' @ [newline]))"
proof -
  have h1: "plainLine ''a: b'' \<and> strings_Index ''a: b'' ''!include'' = None"
    by (simp add: plainLine_def MaxScanTokenSize_def)
  have h2: "plainLine [] \<and> strings_Index [] ''!include'' = None"
    by (simp add: plainLine_def MaxScanTokenSize_def)
  have h3: "plainLine ''c'' \<and> strings_Index ''c'' ''!include'' = None"
    by (simp add: plainLine_def MaxScanTokenSize_def)
  have h: "\<forall>l\<in>set [''a: b'', [], ''c'']. plainLine l \<and> strings_Index l ''!include'' = None"
    using h1 h2 h3 by simp
  show ?thesis
    using h1 h2 h3 preProcess_identity_on_plain_lines [OF h, of sampleEnv "[]"]
    by simp
qed

text \<open>
  C2, as stated, fails: the output differs from a marker-free input when the last line
  has no newline (it gets one), when a carriage return stands before the newline (it is
  dropped), and when a line has \<open>MaxScanTokenSize\<close> bytes (the scanner stops with an
  error).
\<close>

theorem preProcess_identity_counterexample:
  "strings_Index ''a'' ''!include'' = None
   \<and> preProcess sampleEnv ''a'' [] = Returns (Inr (''a'' @ [newline]))
   \<and> preProcess sampleEnv ''a'' [] \<noteq> Returns (Inr ''a'')
   \<and> strings_Index (''a'' @ [carriage_return, newline]) ''!include'' = None
   \<and> preProcess sampleEnv (''a'' @ [carriage_return, newline]) [] = Returns (Inr (''a'' @ [newline]))
   \<and> preProcess sampleEnv (''a'' @ [carriage_return, newline]) []
       \<noteq> Returns (Inr (''a'' @ [carriage_return, newline]))
   \<and> strings_Index (replicate MaxScanTokenSize CHR ''a'' @ [newline]) ''!include'' = None
   \<and> preProcess sampleEnv (replicate MaxScanTokenSize CHR ''a'' @ [newline]) []
       = Returns (Inl ''Error reading YAML file: bufio.Scanner: token too long'')"
proof -
  have "preProcess sampleEnv ''a'' [] = Returns (Inr (''a'' @ [newline]))"
    by (simp add: preProcess_def processLine_def Scan.simps MaxScanTokenSize_def dropCR_def)
  moreover have "preProcess sampleEnv (''a'' @ [carriage_return, newline]) []
      = Returns (Inr (''a'' @ [newline]))"
    by (simp add: preProcess_def processLine_def Scan.simps MaxScanTokenSize_def dropCR_def)
  moreover have "preProcess sampleEnv (replicate MaxScanTokenSize CHR ''a'' @ [newline]) []
       = Returns (Inl ''Error reading YAML file: bufio.Scanner: token too long'')"
    by (simp add: preProcess_def Scan_long_line ErrTooLong_def)
  ultimately show ?thesis
    by (simp add: strings_Index_replicate)
qed

section \<open>The entry point\<close>

text \<open>
  C3, as amended.  For a readable file, \<open>ParseFile\<close> returns the version error exactly
  when the file has a newline and its first line does not start with the ten bytes of
  the version marker.  The result is then fixed by the first line alone, whatever the
  other files and the decoder are.
\<close>

theorem ParseFile_version_check:
  assumes "filepath_Split filePath = (wd, fileName)"
    and "readFileContents e wd fileName = Inr mainFileBytes"
  shows "(ParseFile e filePath = Returns (None, Some versionError))
         = (newline \<in> set mainFileBytes
            \<and> take 10 (takeWhile (\<lambda>c. c \<noteq> newline) mainFileBytes) \<noteq> versionMarker)"
proof (cases "newline \<in> set mainFileBytes")
  case False
  then have "ParseFile e filePath = Returns (None, Some ''Problem reading RAML file (Error: EOF)'')"
    using assms by (simp add: ParseFile_def ReadString_no_delim)
  with False show ?thesis
    by (simp add: versionError_def)
next
  case inside: True
  let ?line = "takeWhile (\<lambda>c. c \<noteq> newline) mainFileBytes"
  have nl: "newline \<notin> set ?line"
    by (auto dest: set_takeWhileD)
  note rs = ReadString_delim [OF inside]
  show ?thesis
  proof (cases "take 10 ?line = versionMarker")
    case True
    then have "(if 10 \<le> length (?line @ [newline]) then take 10 (?line @ [newline]) else [])
                 = versionMarker"
      using first_line_version [OF nl] by simp
    then have "ParseFile e filePath \<noteq> Returns (None, Some versionError)"
      using assms
      by (simp add: ParseFile_def rs versionError_def
          split: outcome.split sum.split prod.split option.split)
    with True show ?thesis by simp
  next
    case False
    then have "(if 10 \<le> length (?line @ [newline]) then take 10 (?line @ [newline]) else [])
                 \<noteq> versionMarker"
      using first_line_version [OF nl] by simp
    then have "ParseFile e filePath = Returns (None, Some versionError)"
      using assms by (simp add: ParseFile_def rs)
    with False inside show ?thesis by simp
  qed
qed

theorem ParseFile_version_check_witness:
  "filepath_Split ''wrong.raml'' = ([], ''wrong.raml'')
   \<and> readFileContents sampleEnv [] ''wrong.raml'' = Inr (''title: x'' @ [newline])
   \<and> newline \<in> set (''title: x'' @ [newline])
   \<and> take 10 (takeWhile (\<lambda>c. c \<noteq> newline) (''title: x'' @ [newline])) \<noteq> versionMarker
   \<and> ParseFile sampleEnv ''wrong.raml'' = Returns (None, Some versionError)"
proof -
  have h1: "filepath_Split ''wrong.raml'' = ([], ''wrong.raml'')"
    by (simp add: filepath_Split_def)
  have h2: "readFileContents sampleEnv [] ''wrong.raml'' = Inr (''title: x'' @ [newline])"
    by (simp add: readFileContents_def sampleEnv_def sampleFiles_def)
  have h3: "newline \<in> set (''title: x'' @ [newline])"
    by simp
  have h4: "take 10 (takeWhile (\<lambda>c. c \<noteq> newline) (''title: x'' @ [newline])) \<noteq> versionMarker"
    by (simp add: versionMarker_def)
  show ?thesis
    using h1 h2 h3 h4 ParseFile_version_check [OF h1 h2]
    by simp
qed

text \<open>
  C3, as stated, fails: a first line that starts with the marker and goes on is not
  equal to the marker, and the file is accepted.
\<close>

theorem ParseFile_version_check_counterexample:
  "readFileContents sampleEnv [] ''loose.raml'' = Inr (''#%RAML 0.8 x'' @ [newline])
   \<and> ''#%RAML 0.8 x'' \<noteq> versionMarker
   \<and> ParseFile sampleEnv ''loose.raml''
       = Returns (Some \<lparr>RAMLVersion = ''#%RAML 0.8'', Title = [], Version = [], BaseUri = []\<rparr>, None)
   \<and> ParseFile sampleEnv ''loose.raml'' \<noteq> Returns (None, Some versionError)"
  by (simp add: ParseFile_def filepath_Split_def ReadString_def versionMarker_def
      preProcess_def readFileContents_def sampleEnv_def sampleFiles_def Scan_Nil
      new_APIDefinition_def)

text \<open>
  C10.  A file without any newline is refused with the error of \<open>ReadString\<close>, also when
  its content is the version marker itself.
\<close>

theorem ParseFile_needs_newline:
  assumes "filepath_Split filePath = (wd, fileName)"
    and "readFileContents e wd fileName = Inr mainFileBytes"
    and "newline \<notin> set mainFileBytes"
  shows "ParseFile e filePath = Returns (None, Some ''Problem reading RAML file (Error: EOF)'')"
  using assms by (simp add: ParseFile_def ReadString_no_delim)

theorem ParseFile_needs_newline_witness:
  "filepath_Split ''bare.raml'' = ([], ''bare.raml'')
   \<and> readFileContents sampleEnv [] ''bare.raml'' = Inr ''#%RAML 0.8''
   \<and> newline \<notin> set ''#%RAML 0.8''
   \<and> ParseFile sampleEnv ''bare.raml'' =
       Returns (None, Some ''Problem reading RAML file (Error: EOF)'')"
proof -
  have h1: "filepath_Split ''bare.raml'' = ([], ''bare.raml'')"
    by (simp add: filepath_Split_def)
  have h2: "readFileContents sampleEnv [] ''bare.raml'' = Inr ''#%RAML 0.8''"
    by (simp add: readFileContents_def sampleEnv_def sampleFiles_def)
  have h3: "newline \<notin> set ''#%RAML 0.8''"
    by simp
  show ?thesis
    using h1 h2 h3 ParseFile_needs_newline [OF h1 h2 h3]
    by simp
qed

text \<open>
  Whenever \<open>ParseFile\<close> returns, it returns a model without an error or an error without
  a model, and it can fail to return only where \<open>preProcess\<close> panics.
\<close>

lemma ParseFile_model_xor_error:
  assumes "ParseFile e filePath = Returns (model, err)"
  shows "(model \<noteq> None \<and> err = None) \<or> (model = None \<and> err \<noteq> None)"
  using assms
  by (auto simp: ParseFile_def Let_def
      split: prod.splits sum.splits option.splits outcome.splits if_splits)

lemma ParseFile_panics_only_in_preProcess:
  assumes "ParseFile e filePath = Panics p"
  shows "\<exists>text wd. preProcess e text wd = Panics p"
  using assms
  by (auto simp: ParseFile_def Let_def
      split: prod.splits sum.splits option.splits outcome.splits if_splits)

text \<open>
  C8.  On a file whose host line ends with the marker, \<open>ParseFile\<close> panics: it returns
  neither a model nor an error.
\<close>

theorem ParseFile_panics_on_dangling_marker:
  "readFileContents sampleEnv [] ''dangling.raml'' = Inr (''#%RAML 0.8'' @ [newline] @ ''t: !include'')
   \<and> ParseFile sampleEnv ''dangling.raml'' = Panics ''runtime error: slice bounds out of range''"
  by (simp add: ParseFile_def filepath_Split_def ReadString_def versionMarker_def
      preProcess_def processLine_def includeLength_def readFileContents_def sampleEnv_def
      sampleFiles_def Scan.simps MaxScanTokenSize_def dropCR_def)

section \<open>The error translation\<close>




section \<open>The definition choice\<close>

text \<open>
  C6.  A scalar node gives the name with a \<open>nil\<close> parameter map, a mapping node with one
  key gives the key as name and its value as parameters.  The string is decoded first:
  when that succeeds the decoding into a map has no influence on the result, and it is
  consulted only when the decoding into a string fails.
\<close>

theorem UnmarshalYAML_choice:
  "UnmarshalYAML dc (scalarNode traitName) = (None, dc\<lparr>Name := traitName, Parameters := None\<rparr>)
   \<and> UnmarshalYAML dc (mappingNode [(traitName, params)])
       = (None, dc\<lparr>Name := traitName, Parameters := Some params\<rparr>)
   \<and> (fst (intoString u []) = None \<longrightarrow>
        UnmarshalYAML dc (u\<lparr>intoMap := anyMapDecoding\<rparr>) = UnmarshalYAML dc u
        \<and> UnmarshalYAML dc u = (None, dc\<lparr>Name := snd (intoString u []), Parameters := None\<rparr>))
   \<and> (fst (intoString u []) \<noteq> None \<longrightarrow>
        UnmarshalYAML dc u =
          (case intoMap u [] of
             (None, parameterizedDefinition) \<Rightarrow>
               (None, foldl (\<lambda>d (choice, ps). d\<lparr>Name := choice, Parameters := Some ps\<rparr>)
                        dc parameterizedDefinition)
           | (Some err, parameterizedDefinition) \<Rightarrow> (Some err, dc)))"
  by (cases "intoString u []")
    (auto simp: UnmarshalYAML_def scalarNode_def mappingNode_def split: prod.splits option.splits)

theorem UnmarshalYAML_choice_witness:
  "UnmarshalYAML \<lparr>Name = [], Parameters = None\<rparr> (scalarNode ''traitName'')
     = (None, \<lparr>Name = ''traitName'', Parameters = None\<rparr>)
   \<and> UnmarshalYAML \<lparr>Name = [], Parameters = None\<rparr> (mappingNode [(''traitName'', [''p'' \<mapsto> ''v''])])
     = (None, \<lparr>Name = ''traitName'', Parameters = Some [''p'' \<mapsto> ''v'']\<rparr>)
   \<and> fst (intoString (scalarNode ''traitName'') []) = None
   \<and> UnmarshalYAML \<lparr>Name = [], Parameters = None\<rparr>
        ((scalarNode ''traitName'')\<lparr>intoMap := (\<lambda>m. (None, [(''other'', Map.empty)]))\<rparr>)
     = (None, \<lparr>Name = ''traitName'', Parameters = None\<rparr>)
   \<and> fst (intoString (mappingNode [(''traitName'', [''p'' \<mapsto> ''v''])]) []) \<noteq> None"
  using UnmarshalYAML_choice [of "\<lparr>Name = [], Parameters = None\<rparr>" "''traitName''"
      "[''p'' \<mapsto> ''v'']" "scalarNode ''traitName''" "\<lambda>m. (None, [(''other'', Map.empty)])"]
    UnmarshalYAML_choice [of "\<lparr>Name = [], Parameters = None\<rparr>" "''traitName''"
      "[''p'' \<mapsto> ''v'']" "mappingNode [(''traitName'', [''p'' \<mapsto> ''v''])]"]
  by (simp add: scalarNode_def mappingNode_def)

end
